theory Spec2Isabelle
  imports Complex_Main "HOL-Library.Sublist"
begin

section \<open>The demo harness of python-asyncdgt (\<^verbatim>\<open>asyncdgt/__main__.py\<close>)\<close>

text \<open>
  The only source file of the repository is the command-line demo. It drives the
  asyncdgt library, asyncio and pyserial, none of which is part of the file. The model
  therefore makes the harness a program over an environment: every call that leaves the
  file is recorded in a trace, and what a fallible call answers (a value, or an exception)
  is read from the environment, which may depend on everything that happened before.
  What the harness does with each answer (its \<^verbatim>\<open>try\<close>/\<^verbatim>\<open>except\<close>/\<^verbatim>\<open>finally\<close>
  blocks, its early \<^verbatim>\<open>return\<close>, its loop over words) is the code of the file.
\<close>

subsection \<open>Values, exceptions, calls\<close>

text \<open>
  A Python object that the harness only passes on or prints is represented by its
  \<^verbatim>\<open>str()\<close> rendering. A Python \<^verbatim>\<open>str\<close> is a list of characters with code points
  below 256. Durations are the decimal literals of the source, as rationals (seconds).
\<close>

type_synonym pyval = string

text \<open>
  The exception classes the \<^verbatim>\<open>except\<close> clauses of the file tell apart, each with its
  message. \<^verbatim>\<open>asyncio.TimeoutError\<close> is a subclass of \<^verbatim>\<open>Exception\<close>;
  \<^verbatim>\<open>asyncio.CancelledError\<close> is not (Python 3.8 and later: the file uses
  \<^verbatim>\<open>asyncio.run\<close> and names Python 3.13). \<open>OtherException\<close> is any other instance of
  \<^verbatim>\<open>Exception\<close>.
\<close>

datatype exn = CancelledError string | TimeoutError string | OtherException string

fun str_exn :: "exn \<Rightarrow> string" where
  "str_exn (CancelledError m) = m"
| "str_exn (TimeoutError m) = m"
| "str_exn (OtherException m) = m"

datatype 'a outcome = Returns 'a | Raises exn

datatype arg = PyInt int | PyFloat rat | PyStr string | PyBool bool

text \<open>The five local functions that \<^verbatim>\<open>main_async\<close> decorates with \<^verbatim>\<open>@dgt.on(...)\<close>.\<close>

datatype handler = on_connected | on_disconnected | on_board | on_button_pressed | on_clock

type_synonym task = nat

datatype call =
    GetRunningLoop                                       \<comment> \<open>\<^verbatim>\<open>asyncio.get_running_loop()\<close>\<close>
  | AutoConnect pyval "string list"                      \<comment> \<open>\<^verbatim>\<open>await asyncdgt.auto_connect(loop, port_globs)\<close>\<close>
  | On pyval string handler                              \<comment> \<open>\<^verbatim>\<open>dgt.on(kind)(handler)\<close>\<close>
  | Sleep rat                                            \<comment> \<open>\<^verbatim>\<open>await asyncio.sleep(d)\<close>\<close>
  | Method pyval string "arg list" "(string \<times> arg) list"  \<comment> \<open>\<^verbatim>\<open>dgt.name(*args, **kwargs)\<close>, awaited where the source awaits it\<close>
  | BoardFen pyval                                       \<comment> \<open>\<^verbatim>\<open>board.board_fen()\<close>\<close>
  | WaitFor call rat                                     \<comment> \<open>\<^verbatim>\<open>await asyncio.wait_for(c, timeout)\<close>\<close>
  | ForeverFuture                                        \<comment> \<open>\<^verbatim>\<open>await asyncio.Future()\<close>\<close>
  | AllTasks pyval                                       \<comment> \<open>\<^verbatim>\<open>asyncio.all_tasks(loop=loop)\<close>\<close>
  | Cancel task                                          \<comment> \<open>\<^verbatim>\<open>task.cancel()\<close>\<close>
  | Gather "task list"                                   \<comment> \<open>\<^verbatim>\<open>await asyncio.gather(*pending, return_exceptions=True)\<close>\<close>
  | LoopClose pyval                                      \<comment> \<open>\<^verbatim>\<open>loop.close()\<close>\<close>
  | BasicConfig string                                   \<comment> \<open>\<^verbatim>\<open>logging.basicConfig(level=logging.DEBUG)\<close>\<close>
  | Comports                                             \<comment> \<open>\<^verbatim>\<open>serial.tools.list_ports.comports()\<close>\<close>

datatype event = Call call | Print string

text \<open>
  The environment. \<open>respond h c\<close> is the outcome of the fallible call \<open>c\<close> made after the
  events \<open>h\<close>: the awaited calls, the methods of the asyncdgt objects and
  \<^verbatim>\<open>loop.close()\<close>. The bookkeeping calls of the standard library
  (\<^verbatim>\<open>get_running_loop\<close>, \<^verbatim>\<open>all_tasks\<close>, \<^verbatim>\<open>task.cancel\<close>, \<^verbatim>\<open>logging.basicConfig\<close>,
  \<^verbatim>\<open>comports\<close>, \<^verbatim>\<open>print\<close>) are recorded and do not raise; the values the first
  three return are fields of the environment.
\<close>

record env =
  respond :: "event list \<Rightarrow> call \<Rightarrow> pyval outcome"
  running_loop :: pyval
  all_tasks :: "event list \<Rightarrow> task list"
  comports :: "(string \<times> string \<times> string) list"

subsection \<open>Sequencing, \<^verbatim>\<open>try\<close>/\<^verbatim>\<open>except\<close>, \<^verbatim>\<open>try\<close>/\<^verbatim>\<open>finally\<close>\<close>

text \<open>
  A piece of the program takes the events so far and gives its outcome and the events
  it adds.
\<close>

type_synonym 'a prog = "event list \<Rightarrow> 'a outcome \<times> event list"

definition ret :: "'a \<Rightarrow> 'a prog" where
  "ret a h = (Returns a, [])"

definition call :: "env \<Rightarrow> call \<Rightarrow> pyval prog" where
  "call E c h = (respond E h c, [Call c])"

definition log_call :: "call \<Rightarrow> 'a \<Rightarrow> 'a prog" where
  "log_call c a h = (Returns a, [Call c])"

definition print :: "string \<Rightarrow> unit prog" where
  "print s h = (Returns (), [Print s])"

definition and_then :: "'a prog \<Rightarrow> ('a \<Rightarrow> 'b prog) \<Rightarrow> 'b prog" where
  "and_then p f h =
     (case p h of
        (Raises e, t) \<Rightarrow> (Raises e, t)
      | (Returns a, t) \<Rightarrow> (case f a (h @ t) of (r, t') \<Rightarrow> (r, t @ t')))"

text \<open>
  \<open>try_except p handlers\<close>: the \<^verbatim>\<open>except\<close> clauses are a function from the exception
  to the body of the first clause that matches it, \<open>None\<close> when no clause matches and the
  exception propagates.
\<close>

definition try_except :: "'a prog \<Rightarrow> (exn \<Rightarrow> 'a prog option) \<Rightarrow> 'a prog" where
  "try_except p handlers h =
     (case p h of
        (Returns a, t) \<Rightarrow> (Returns a, t)
      | (Raises e, t) \<Rightarrow>
          (case handlers e of
             None \<Rightarrow> (Raises e, t)
           | Some q \<Rightarrow> (case q (h @ t) of (r, t') \<Rightarrow> (r, t @ t'))))"

text \<open>
  \<open>try_finally p fin\<close>: \<open>fin\<close> runs whatever \<open>p\<close> did; an exception of \<open>fin\<close> replaces
  the outcome of \<open>p\<close>, otherwise the outcome of \<open>p\<close> stands.
\<close>

definition try_finally :: "'a prog \<Rightarrow> unit prog \<Rightarrow> 'a prog" where
  "try_finally p fin h =
     (case p h of (r, t) \<Rightarrow>
        (case fin (h @ t) of
           (Raises e, t') \<Rightarrow> (Raises e, t @ t')
         | (Returns _, t') \<Rightarrow> (r, t @ t')))"

subsection \<open>\<^verbatim>\<open>usage\<close>\<close>

definition nl :: char where
  "nl = CHR 0x0A"

fun join_lines :: "string list \<Rightarrow> string" where
  "join_lines [] = []"
| "join_lines [l] = l"
| "join_lines (l # ls) = l @ [nl] @ join_lines ls"

text \<open>\<^verbatim>\<open>__doc__.strip()\<close>: the module docstring without its first and last newline.\<close>

definition doc :: string where
  "doc = join_lines
     [''The asyncdgt library.'',
      ''Copyright (C) 2015 Niklas Fiekas <niklas.fiekas@tu-clausthal.de>'',
      '''',
      ''Usage:'',
      ''  python -m asyncdgt [--debug] <dgt-port>'',
      '''',
      ''[--debug]'',
      ''  Enable debug logger.'',
      '''',
      ''<dgt-port>'',
      ''  The serial port with the DGT board.'']"

text \<open>\<^verbatim>\<open>f"  * {dev} ({info})"\<close>\<close>

fun port_line :: "string \<times> string \<times> string \<Rightarrow> string" where
  "port_line (dev, name, info) = ''  * '' @ dev @ '' ('' @ info @ '')''"

primrec print_ports :: "(string \<times> string \<times> string) list \<Rightarrow> unit prog" where
  "print_ports [] = ret ()"
| "print_ports (port # ports) = and_then (print (port_line port)) (\<lambda>_. print_ports ports)"

definition usage :: "env \<Rightarrow> int prog" where
  "usage E =
     and_then (print doc) (\<lambda>_.
     and_then (print ''  Probably one of:'') (\<lambda>_.
     and_then (log_call Comports (comports E)) (\<lambda>ports.
     and_then (print_ports ports) (\<lambda>_.
     ret 1))))"

subsection \<open>The event handlers of \<^verbatim>\<open>main_async\<close>\<close>

text \<open>
  What each handler prints when it is called with the given positional arguments (one
  string for each \<^verbatim>\<open>print\<close>); \<open>None\<close> is the \<^verbatim>\<open>TypeError\<close> of a call with the wrong
  number of arguments.
\<close>

fun run_handler :: "handler \<Rightarrow> pyval list \<Rightarrow> string list option" where
  "run_handler on_connected [port] = Some [''Board connected to '' @ port @ ''!'']"
| "run_handler on_disconnected [] = Some [''Board disconnected!'']"
| "run_handler on_board [board] = Some [''Position changed:'', board]"
| "run_handler on_button_pressed [button] = Some [''Button '' @ button @ '' pressed!'']"
| "run_handler on_clock [clock] = Some [''Clock status changed: '' @ clock]"
| "run_handler _ _ = None"

definition register_handlers :: "env \<Rightarrow> pyval \<Rightarrow> unit prog" where
  "register_handlers E dgt =
     and_then (call E (On dgt ''connected'' on_connected)) (\<lambda>_.
     and_then (call E (On dgt ''disconnected'' on_disconnected)) (\<lambda>_.
     and_then (call E (On dgt ''board'' on_board)) (\<lambda>_.
     and_then (call E (On dgt ''button_pressed'' on_button_pressed)) (\<lambda>_.
     and_then (call E (On dgt ''clock'' on_clock)) (\<lambda>_.
     ret ())))))"

subsection \<open>\<^verbatim>\<open>clock_display_sentence\<close>\<close>

text \<open>
  \<^verbatim>\<open>str.split()\<close> without arguments: the maximal runs of characters that are not
  whitespace, in order. Whitespace is what \<^verbatim>\<open>str.isspace\<close> accepts among the code
  points below 256.
\<close>

definition is_space :: "char \<Rightarrow> bool" where
  "is_space c = (of_char c \<in> set [9, 10, 11, 12, 13, 28, 29, 30, 31, 32, 133, 160 :: nat])"

fun split_from :: "string \<Rightarrow> string \<Rightarrow> string list" where
  "split_from w [] = (if w = [] then [] else [w])"
| "split_from w (c # cs) =
     (if is_space c then (if w = [] then split_from [] cs else w # split_from [] cs)
      else split_from (w @ [c]) cs)"

definition str_split :: "string \<Rightarrow> string list" where
  "str_split s = split_from [] s"

text \<open>The body of the \<^verbatim>\<open>for\<close> loop, for one word.\<close>

definition display_word :: "env \<Rightarrow> pyval \<Rightarrow> string \<Rightarrow> unit prog" where
  "display_word E dgt word =
     and_then (call E (Sleep 0.2)) (\<lambda>_.
     try_except
       (and_then (call E (WaitFor (Method dgt ''clock_text'' [PyStr word] []) 0.5)) (\<lambda>_. ret ()))
       (\<lambda>e. case e of
          TimeoutError _ \<Rightarrow> Some (print ''Sending clock text timed out.'')
        | OtherException _ \<Rightarrow> Some (print (''Error sending clock text: '' @ str_exn e))
        | CancelledError _ \<Rightarrow> None))"

primrec display_words :: "env \<Rightarrow> pyval \<Rightarrow> string list \<Rightarrow> unit prog" where
  "display_words E dgt [] = ret ()"
| "display_words E dgt (word # rest) =
     and_then (display_word E dgt word) (\<lambda>_. display_words E dgt rest)"

definition clock_display_sentence :: "env \<Rightarrow> pyval \<Rightarrow> string \<Rightarrow> unit prog" where
  "clock_display_sentence E dgt sentence = display_words E dgt (str_split sentence)"

subsection \<open>\<^verbatim>\<open>main_async\<close>\<close>

text \<open>
  Lines 87 to 100. The result says whether the function returns here (the
  \<^verbatim>\<open>except asyncio.CancelledError\<close> clause) or goes on.
\<close>

definition get_information :: "env \<Rightarrow> pyval \<Rightarrow> bool prog" where
  "get_information E dgt =
     try_except
       (and_then (call E (Method dgt ''get_version'' [] [])) (\<lambda>version.
        and_then (print (''Version: '' @ version)) (\<lambda>_.
        and_then (call E (Method dgt ''get_serialnr'' [] [])) (\<lambda>serial.
        and_then (print (''Serial: '' @ serial)) (\<lambda>_.
        and_then (call E (Method dgt ''get_long_serialnr'' [] [])) (\<lambda>long_serial.
        and_then (print (''Long serial: '' @ long_serial)) (\<lambda>_.
        and_then (call E (Method dgt ''get_board'' [] [])) (\<lambda>board.
        and_then (call E (BoardFen board)) (\<lambda>fen.
        and_then (print (''Board: '' @ fen)) (\<lambda>_.
        ret False))))))))))
       (\<lambda>e. case e of
          CancelledError _ \<Rightarrow>
            Some (and_then (print ''Connection or information retrieval cancelled.'') (\<lambda>_. ret True))
        | _ \<Rightarrow>
            Some (and_then (print (''Error getting board information: '' @ str_exn e)) (\<lambda>_. ret False)))"

text \<open>Lines 103 to 109.\<close>

definition get_clock_version :: "env \<Rightarrow> pyval \<Rightarrow> unit prog" where
  "get_clock_version E dgt =
     try_except
       (and_then (call E (WaitFor (Method dgt ''get_clock_version'' [] []) 1.0)) (\<lambda>version.
        print (''Clock version: '' @ version)))
       (\<lambda>e. case e of
          TimeoutError _ \<Rightarrow> Some (print ''Clock version request timed out.'')
        | OtherException _ \<Rightarrow> Some (print (''Error getting clock version: '' @ str_exn e))
        | CancelledError _ \<Rightarrow> None)"

definition quote :: string where
  "quote = ''Now, I am become death, the destroyer of worlds. Ready''"

text \<open>Lines 116 to 123.\<close>

definition beep :: "env \<Rightarrow> pyval \<Rightarrow> unit prog" where
  "beep E dgt =
     try_except
       (and_then (print ''Beep ...'') (\<lambda>_.
        and_then (call E (WaitFor (Method dgt ''clock_beep'' [PyFloat 0.1] []) 1.0)) (\<lambda>_. ret ())))
       (\<lambda>e. case e of
          TimeoutError _ \<Rightarrow> Some (print ''Beep not acknowledged in time.'')
        | OtherException _ \<Rightarrow> Some (print (''Error making clock beep: '' @ str_exn e))
        | CancelledError _ \<Rightarrow> None)"

text \<open>Lines 126 to 133.\<close>

definition countdown :: "env \<Rightarrow> pyval \<Rightarrow> unit prog" where
  "countdown E dgt =
     try_except
       (and_then (print ''Countdown ...'') (\<lambda>_.
        and_then (call E (WaitFor (Method dgt ''clock_set'' []
            [(''left_time'', PyInt 10), (''right_time'', PyInt 7), (''left_running'', PyBool True)]) 1.0))
          (\<lambda>_. ret ())))
       (\<lambda>e. case e of
          TimeoutError _ \<Rightarrow> Some (print ''Clock does not respond.'')
        | OtherException _ \<Rightarrow> Some (print (''Error setting clock countdown: '' @ str_exn e))
        | CancelledError _ \<Rightarrow> None)"

text \<open>Lines 103 to 133: the commands the demo issues under \<^verbatim>\<open>asyncio.wait_for\<close>.\<close>

definition demo_commands :: "env \<Rightarrow> pyval \<Rightarrow> unit prog" where
  "demo_commands E dgt =
     and_then (get_clock_version E dgt) (\<lambda>_.
     and_then (print ''Displaying text ...'') (\<lambda>_.
     and_then (clock_display_sentence E dgt quote) (\<lambda>_.
     and_then (beep E dgt) (\<lambda>_.
     countdown E dgt))))"

text \<open>Lines 153 to 157: \<^verbatim>\<open>for task in pending: task.cancel()\<close>.\<close>

primrec cancel_all :: "task list \<Rightarrow> unit prog" where
  "cancel_all [] = ret ()"
| "cancel_all (task # rest) = and_then (log_call (Cancel task) ()) (\<lambda>_. cancel_all rest)"

text \<open>Lines 153 to 162: what the \<^verbatim>\<open>finally\<close> clause does after \<^verbatim>\<open>dgt.close()\<close>.\<close>

definition cancel_pending :: "env \<Rightarrow> pyval \<Rightarrow> unit prog" where
  "cancel_pending E loop =
     and_then (\<lambda>h. log_call (AllTasks loop) (all_tasks E h) h) (\<lambda>pending.
     and_then (cancel_all pending) (\<lambda>_.
     and_then (call E (Gather pending)) (\<lambda>_.
     and_then (call E (LoopClose loop)) (\<lambda>_.
     print ''Event loop closed.''))))"

text \<open>Lines 151 to 162: the body of the \<^verbatim>\<open>finally\<close> clause.\<close>

definition shutdown :: "env \<Rightarrow> pyval \<Rightarrow> pyval \<Rightarrow> unit prog" where
  "shutdown E dgt loop =
     and_then (call E (Method dgt ''close'' [] [])) (\<lambda>_. cancel_pending E loop)"

text \<open>The message of line 149, which starts with a newline.\<close>

definition cancelled_message :: string where
  "cancelled_message = nl # ''Event loop cancelled (e.g., via Ctrl+C). Shutting down...''"

text \<open>Lines 138 to 162.\<close>

definition run_event_loop :: "env \<Rightarrow> pyval \<Rightarrow> pyval \<Rightarrow> unit prog" where
  "run_event_loop E dgt loop =
     try_finally
       (try_except
          (and_then (call E ForeverFuture) (\<lambda>_. ret ()))
          (\<lambda>e. case e of
             CancelledError _ \<Rightarrow>
               Some (print cancelled_message)
           | _ \<Rightarrow> None))
       (shutdown E dgt loop)"

text \<open>
  \<^verbatim>\<open>main_async(port_globs)\<close>. Its value is \<open>None\<close> (the bare \<^verbatim>\<open>return\<close> of line 96)
  or \<open>Some 0\<close> (line 164).
\<close>

definition main_async :: "env \<Rightarrow> string list \<Rightarrow> int option prog" where
  "main_async E port_globs =
     and_then (log_call GetRunningLoop (running_loop E)) (\<lambda>loop.
     and_then (call E (AutoConnect loop port_globs)) (\<lambda>dgt.
     and_then (register_handlers E dgt) (\<lambda>_.
     and_then (call E (Sleep 0.1)) (\<lambda>_.
     and_then (get_information E dgt) (\<lambda>returned.
       if returned then ret None
       else
         and_then (demo_commands E dgt) (\<lambda>_.
         and_then (print ''Running event loop ... Press Ctrl+C to exit.'') (\<lambda>_.
         and_then (run_event_loop E dgt loop) (\<lambda>_.
         ret (Some 0)))))))))"

subsection \<open>\<^verbatim>\<open>main_entrypoint\<close>\<close>

text \<open>
  How the process ends: \<^verbatim>\<open>sys.exit(status)\<close>, or an exception that nothing catches.
  \<^verbatim>\<open>sys.exit(None)\<close> is exit status 0.
\<close>

datatype ending = Exit int | Uncaught exn

definition sys_exit :: "int option \<Rightarrow> ending" where
  "sys_exit status = (case status of None \<Rightarrow> Exit 0 | Some n \<Rightarrow> Exit n)"

text \<open>\<^verbatim>\<open>[arg for arg in sys.argv[1:] if arg != "--debug"]\<close>\<close>

definition port_globs_of :: "string list \<Rightarrow> string list" where
  "port_globs_of argv = [arg \<leftarrow> drop 1 argv. arg \<noteq> ''--debug'']"

text \<open>\<^verbatim>\<open>if "--debug" in sys.argv: logging.basicConfig(level=logging.DEBUG)\<close>\<close>

definition configure_logging :: "string list \<Rightarrow> event list" where
  "configure_logging argv = (if ''--debug'' \<in> set argv then [Call (BasicConfig ''DEBUG'')] else [])"

text \<open>
  \<^verbatim>\<open>main_entrypoint()\<close>, with \<^verbatim>\<open>sys.argv\<close> as its argument. \<^verbatim>\<open>asyncio.run\<close> hands on
  what \<^verbatim>\<open>main_async\<close> returns or raises. The result is how the process ends and every
  event of the run.
\<close>

definition main_entrypoint :: "env \<Rightarrow> string list \<Rightarrow> ending \<times> event list" where
  "main_entrypoint E argv =
     (let t0 = configure_logging argv;
          port_globs = port_globs_of argv
      in case (if port_globs = [] then and_then (usage E) (\<lambda>status. ret (Some status))
               else main_async E port_globs) t0 of
           (Returns status, t) \<Rightarrow> (sys_exit status, t0 @ t)
         | (Raises e, t) \<Rightarrow> (Uncaught e, t0 @ t))"

subsection \<open>Reading a trace\<close>

text \<open>The calls of a trace, in order, without what was printed.\<close>

fun calls :: "event list \<Rightarrow> call list" where
  "calls [] = []"
| "calls (Call c # t) = c # calls t"
| "calls (Print s # t) = calls t"



text \<open>\<^verbatim>\<open>dgt.close()\<close>, on any handle.\<close>

fun is_close :: "event \<Rightarrow> bool" where
  "is_close (Call (Method dgt name args kwargs)) = (name = ''close'')"
| "is_close _ = False"

text \<open>\<^verbatim>\<open>task.cancel()\<close> and \<^verbatim>\<open>asyncio.gather\<close>.\<close>

fun is_task_cancellation :: "event \<Rightarrow> bool" where
  "is_task_cancellation (Call (Cancel task)) = True"
| "is_task_cancellation (Call (Gather tasks)) = True"
| "is_task_cancellation _ = False"



text \<open>The handlers a trace registers, with the kind of event of each.\<close>

fun registration :: "call \<Rightarrow> (string \<times> handler) list" where
  "registration (On dgt kind h) = [(kind, h)]"
| "registration _ = []"

definition registrations :: "event list \<Rightarrow> (string \<times> handler) list" where
  "registrations t = concat (map registration (calls t))"


subsection \<open>What a piece of the program can emit\<close>

definition emits :: "(event \<Rightarrow> bool) \<Rightarrow> 'a prog \<Rightarrow> bool" where
  "emits P p = (\<forall>h. list_all P (snd (p h)))"

text \<open>
  \<open>reaches P Q p\<close>: a run of \<open>p\<close> emits events that satisfy \<open>P\<close>, then possibly a
  rest that \<open>Q\<close> describes, given the events before it.
\<close>

definition reaches :: "(event \<Rightarrow> bool) \<Rightarrow> (event list \<Rightarrow> event list \<Rightarrow> bool) \<Rightarrow> 'a prog \<Rightarrow> bool" where
  "reaches P Q p =
     (\<forall>h. list_all P (snd (p h)) \<or>
          (\<exists>t1 t2. snd (p h) = t1 @ t2 \<and> list_all P t1 \<and> Q (h @ t1) t2))"

text \<open>
  The events before the long-lived wait of line 147: neither the wait, nor
  \<^verbatim>\<open>dgt.close()\<close>, nor the cancellation of tasks.
\<close>

definition setup_event :: "event \<Rightarrow> bool" where
  "setup_event ev = (ev \<noteq> Call ForeverFuture \<and> \<not> is_close ev \<and> \<not> is_task_cancellation ev)"

subsection \<open>Example environments\<close>

text \<open>
  Every call returns, until the long-lived wait is cancelled (Ctrl+C); one serial port is
  attached; two tasks are pending at shutdown.
\<close>

definition env_returning :: env where
  "env_returning =
     \<lparr> respond = (\<lambda>h c. case c of
                    ForeverFuture \<Rightarrow> Raises (CancelledError [])
                  | _ \<Rightarrow> Returns ''ok''),
       running_loop = ''loop'',
       all_tasks = (\<lambda>h. [0, 1]),
       comports = [(''/dev/ttyUSB0'', ''ttyUSB0'', ''USB VID:PID=0403:6001'')] \<rparr>"




subsection \<open>The event kinds of the library\<close>

text \<open>
  Modelled from the spec: the Event Bus of the asyncdgt library is not under src/.
  Section 4.6: "Supported kinds and payloads: connected(port_identifier), disconnected(),
  board(Board State), button_pressed(button_identifier), clock(Clock State)." The table
  gives each supported kind with the values its payload consists of.
\<close>

datatype payload = PortIdentifier | BoardState | ButtonIdentifier | ClockState

definition supported_events :: "(string \<times> payload list) list" where
  "supported_events =
     [(''connected'', [PortIdentifier]),
      (''disconnected'', []),
      (''board'', [BoardState]),
      (''button_pressed'', [ButtonIdentifier]),
      (''clock'', [ClockState])]"

text \<open>
  The handlers that lines 60 to 79 of \<^verbatim>\<open>main_async\<close> register, in the order of the
  source, each with the kind of event it is registered for.
\<close>

definition demo_handlers :: "(string \<times> handler) list" where
  "demo_handlers =
     [(''connected'', on_connected),
      (''disconnected'', on_disconnected),
      (''board'', on_board),
      (''button_pressed'', on_button_pressed),
      (''clock'', on_clock)]"

section \<open>The board serialization of the library\<close>

text \<open>
  Modelled from the spec: \<^verbatim>\<open>board_fen()\<close> belongs to the board object of the asyncdgt
  library, which is not under src/ (line 93 only calls it). Section 3: a Board State is a
  "64-square occupancy snapshot (piece code or empty per square)". Section 6: the
  \<^verbatim>\<open>get_board\<close> result "exposes a FEN-like string built purely from occupancy, with
  empty squares run-length compressed per standard FEN rank syntax, rank 8 to rank 1, no
  side-to-move/castling fields (occupancy only)".

  A square is empty or holds a piece, written as the letter that FEN gives it. A board
  is the list of its 64 squares, a1 to h1 first, then the second rank, up to a8 to h8.
\<close>

type_synonym square = "char option"

definition rank_squares :: "square list \<Rightarrow> nat \<Rightarrow> square list" where
  "rank_squares board r = take 8 (drop (8 * r) board)"

text \<open>The decimal digit for a run of \<open>n\<close> empty squares.\<close>

definition digit :: "nat \<Rightarrow> char" where
  "digit n = char_of (48 + n)"

definition empty_run :: "nat \<Rightarrow> string" where
  "empty_run n = (if n = 0 then [] else [digit n])"

text \<open>
  One rank, from the a-file to the h-file; \<open>n\<close> counts the empty squares since the last
  piece.
\<close>

fun rank_fen :: "nat \<Rightarrow> square list \<Rightarrow> string" where
  "rank_fen n [] = empty_run n"
| "rank_fen n (None # squares) = rank_fen (Suc n) squares"
| "rank_fen n (Some piece # squares) = empty_run n @ piece # rank_fen 0 squares"

fun join_ranks :: "string list \<Rightarrow> string" where
  "join_ranks [] = []"
| "join_ranks [r] = r"
| "join_ranks (r # rs) = r @ CHR ''/'' # join_ranks rs"

text \<open>The ranks from rank 8 down to rank 1, with \<^verbatim>\<open>/\<close> between them, and nothing else.\<close>

definition board_fen :: "square list \<Rightarrow> string" where
  "board_fen board = join_ranks (map (\<lambda>r. rank_fen 0 (rank_squares board r)) [7, 6, 5, 4, 3, 2, 1, 0])"

subsection \<open>Reading the string\<close>

text \<open>
  What a reader of FEN does with the piece placement: the digits 1 to 8 stand for that
  many empty squares, \<^verbatim>\<open>/\<close> ends a rank, any other character is a piece.
\<close>

definition digit_value :: "char \<Rightarrow> nat option" where
  "digit_value c = (if 49 \<le> (of_char c :: nat) \<and> (of_char c :: nat) \<le> 56 then Some (of_char c - 48) else None)"

fun split_ranks :: "string \<Rightarrow> string \<Rightarrow> string list" where
  "split_ranks field [] = [field]"
| "split_ranks field (c # cs) =
     (if c = CHR ''/'' then field # split_ranks [] cs else split_ranks (field @ [c]) cs)"

fun expand_rank :: "string \<Rightarrow> square list" where
  "expand_rank [] = []"
| "expand_rank (c # cs) =
     (case digit_value c of Some n \<Rightarrow> replicate n None | None \<Rightarrow> [Some c]) @ expand_rank cs"

text \<open>No two digits stand next to each other: every run of empty squares is one digit.\<close>

fun compressed :: "string \<Rightarrow> bool" where
  "compressed (c # d # cs) = (\<not> (digit_value c \<noteq> None \<and> digit_value d \<noteq> None) \<and> compressed (d # cs))"
| "compressed _ = True"

text \<open>A letter that can stand for a piece: no digit, no \<^verbatim>\<open>/\<close>, no blank.\<close>

definition piece_letter :: "char \<Rightarrow> bool" where
  "piece_letter c = (digit_value c = None \<and> c \<noteq> CHR ''/'' \<and> c \<noteq> CHR '' '')"

text \<open>The position after 1. e4, as an example.\<close>

definition after_e4 :: "square list" where
  "after_e4 = map Some ''RNBQKBNR'' @ map Some ''PPPP'' @ [None] @ map Some ''PPP''
     @ replicate 8 None @ replicate 4 None @ [Some CHR ''P''] @ replicate 3 None
     @ replicate 16 None @ map Some ''pppppppp'' @ map Some ''rnbqkbnr''"

section \<open>Properties of the harness\<close>

subsection \<open>Sequencing and traces\<close>


lemma emitsD: "emits P p \<Longrightarrow> p h = (r, t) \<Longrightarrow> list_all P t"
  by (auto simp: emits_def dest: spec[of _ h])

lemma emits_ret: "emits P (ret a)"
  by (simp add: emits_def ret_def)

lemma emits_print: "P (Print s) \<Longrightarrow> emits P (print s)"
  by (simp add: emits_def print_def)

lemma emits_call: "P (Call c) \<Longrightarrow> emits P (call E c)"
  by (simp add: emits_def call_def)

lemma emits_log_call: "P (Call c) \<Longrightarrow> emits P (log_call c a)"
  by (simp add: emits_def log_call_def)

lemma emits_and_then: "emits P p \<Longrightarrow> (\<And>a. emits P (f a)) \<Longrightarrow> emits P (and_then p f)"
  by (auto simp: emits_def and_then_def split: prod.splits outcome.splits dest: emitsD[unfolded emits_def])

lemma emits_try_except:
  "emits P p \<Longrightarrow> (\<And>e q. handlers e = Some q \<Longrightarrow> emits P q) \<Longrightarrow> emits P (try_except p handlers)"
  by (auto simp: emits_def try_except_def split: prod.splits outcome.splits option.splits dest: emitsD[unfolded emits_def])

lemma emits_try_finally:
  "emits P p \<Longrightarrow> emits P fin \<Longrightarrow> emits P (try_finally p fin)"
  by (auto simp: emits_def try_finally_def split: prod.splits outcome.splits dest: emitsD[unfolded emits_def])

lemmas emits_intros =
  emits_ret emits_print emits_call emits_log_call emits_and_then emits_try_except emits_try_finally

lemma emits_register_handlers:
  assumes "\<And>kind hd. (kind, hd) \<in> set demo_handlers \<Longrightarrow> P (Call (On dgt kind hd))"
  shows "emits P (register_handlers E dgt)"
  unfolding register_handlers_def
  by (intro emits_intros assms) (simp_all add: demo_handlers_def)

lemma emits_get_information:
  assumes "\<And>s. P (Print s)"
    and "\<And>name. name \<in> {''get_version'', ''get_serialnr'', ''get_long_serialnr'', ''get_board''}
           \<Longrightarrow> P (Call (Method dgt name [] []))"
    and "\<And>board. P (Call (BoardFen board))"
  shows "emits P (get_information E dgt)"
  unfolding get_information_def
  by (intro emits_intros) (auto split: exn.splits intro!: emits_intros assms)

lemma emits_display_word:
  assumes "\<And>s. P (Print s)" and "P (Call (Sleep 0.2))"
    and "P (Call (WaitFor (Method dgt ''clock_text'' [PyStr word] []) 0.5))"
  shows "emits P (display_word E dgt word)"
  unfolding display_word_def
  by (intro emits_intros) (use assms in \<open>auto split: exn.splits intro!: emits_intros\<close>)

lemma emits_display_words:
  assumes "\<And>s. P (Print s)" and "P (Call (Sleep 0.2))"
    and "\<And>word. P (Call (WaitFor (Method dgt ''clock_text'' [PyStr word] []) 0.5))"
  shows "emits P (display_words E dgt ws)"
  by (induction ws) (use assms in \<open>auto intro!: emits_intros emits_display_word\<close>)

lemma emits_demo_commands:
  assumes "\<And>s. P (Print s)" and "P (Call (Sleep 0.2))"
    and "P (Call (WaitFor (Method dgt ''get_clock_version'' [] []) 1.0))"
    and "\<And>word. P (Call (WaitFor (Method dgt ''clock_text'' [PyStr word] []) 0.5))"
    and "P (Call (WaitFor (Method dgt ''clock_beep'' [PyFloat 0.1] []) 1.0))"
    and "P (Call (WaitFor (Method dgt ''clock_set'' []
            [(''left_time'', PyInt 10), (''right_time'', PyInt 7), (''left_running'', PyBool True)]) 1.0))"
  shows "emits P (demo_commands E dgt)"
  unfolding demo_commands_def get_clock_version_def clock_display_sentence_def beep_def countdown_def
  by (intro emits_intros emits_display_words)
     (use assms in \<open>auto split: exn.splits intro!: emits_intros\<close>)

lemma emits_cancel_all: "(\<And>task. P (Call (Cancel task))) \<Longrightarrow> emits P (cancel_all ts)"
  by (induction ts) (auto intro!: emits_intros)

lemma emits_all_tasks: "P (Call (AllTasks loop)) \<Longrightarrow> emits P (\<lambda>h. log_call (AllTasks loop) (all_tasks E h) h)"
  by (simp add: emits_def log_call_def)

lemma emits_run_event_loop:
  assumes "\<And>s. P (Print s)" and "P (Call ForeverFuture)" and "P (Call (Method dgt ''close'' [] []))"
    and "P (Call (AllTasks loop))" and "\<And>task. P (Call (Cancel task))"
    and "\<And>ts. P (Call (Gather ts))" and "P (Call (LoopClose loop))"
  shows "emits P (run_event_loop E dgt loop)"
  unfolding run_event_loop_def shutdown_def cancel_pending_def
  by (intro emits_intros emits_cancel_all emits_all_tasks) (auto split: exn.splits intro!: emits_intros assms)

text \<open>Every call that \<^verbatim>\<open>main_async\<close> can make.\<close>

lemma emits_main_async:
  assumes "\<And>s. P (Print s)" and "P (Call GetRunningLoop)" and "\<And>loop. P (Call (AutoConnect loop globs))"
    and "\<And>dgt kind hd. (kind, hd) \<in> set demo_handlers \<Longrightarrow> P (Call (On dgt kind hd))"
    and "P (Call (Sleep 0.1))" and "P (Call (Sleep 0.2))"
    and "\<And>dgt name.
           name \<in> {''get_version'', ''get_serialnr'', ''get_long_serialnr'', ''get_board'', ''close''}
           \<Longrightarrow> P (Call (Method dgt name [] []))"
    and "\<And>board. P (Call (BoardFen board))"
    and "\<And>dgt. P (Call (WaitFor (Method dgt ''get_clock_version'' [] []) 1.0))"
    and "\<And>dgt word. P (Call (WaitFor (Method dgt ''clock_text'' [PyStr word] []) 0.5))"
    and "\<And>dgt. P (Call (WaitFor (Method dgt ''clock_beep'' [PyFloat 0.1] []) 1.0))"
    and "\<And>dgt. P (Call (WaitFor (Method dgt ''clock_set'' []
            [(''left_time'', PyInt 10), (''right_time'', PyInt 7), (''left_running'', PyBool True)]) 1.0))"
    and "P (Call ForeverFuture)" and "\<And>loop. P (Call (AllTasks loop))" and "\<And>task. P (Call (Cancel task))"
    and "\<And>ts. P (Call (Gather ts))" and "\<And>loop. P (Call (LoopClose loop))"
  shows "emits P (main_async E globs)"
  unfolding main_async_def
  by (intro emits_intros emits_register_handlers emits_get_information emits_demo_commands)
     (use assms in \<open>auto intro!: emits_intros emits_run_event_loop emits_demo_commands\<close>)

subsection \<open>Return values and the entry point\<close>





lemma print_ports_eq: "print_ports ports h = (Returns (), map (Print \<circ> port_line) ports)"
  by (induction ports arbitrary: h) (simp_all add: ret_def and_then_def print_def)

lemma usage_eq:
  "usage E h = (Returns 1, [Print doc, Print ''  Probably one of:'', Call Comports]
                  @ map (Print \<circ> port_line) (comports E))"
  by (simp add: usage_def and_then_def print_def log_call_def ret_def print_ports_eq)

lemma main_entrypoint_usage:
  "port_globs_of argv = [] \<Longrightarrow>
     main_entrypoint E argv =
       (Exit 1, configure_logging argv @ [Print doc, Print ''  Probably one of:'', Call Comports]
                  @ map (Print \<circ> port_line) (comports E))"
  by (simp add: main_entrypoint_def and_then_def usage_eq ret_def sys_exit_def)

lemma main_entrypoint_run:
  "port_globs_of argv \<noteq> [] \<Longrightarrow>
     main_entrypoint E argv =
       (case main_async E (port_globs_of argv) (configure_logging argv) of
          (Returns status, t) \<Rightarrow> (sys_exit status, configure_logging argv @ t)
        | (Raises e, t) \<Rightarrow> (Uncaught e, configure_logging argv @ t))"
  by (simp add: main_entrypoint_def Let_def)

lemma port_globs_of_empty: "port_globs_of argv = [] \<longleftrightarrow> (\<forall>arg \<in> set (drop 1 argv). arg = ''--debug'')"
  by (auto simp: port_globs_of_def filter_empty_conv)

lemma auto_connect_globs:
  "main_async E globs h = (r, t) \<Longrightarrow> Call (AutoConnect loop g) \<in> set t \<Longrightarrow> g = globs"
proof -
  assume run: "main_async E globs h = (r, t)" and mem: "Call (AutoConnect loop g) \<in> set t"
  have "emits (\<lambda>ev. \<forall>l g. ev = Call (AutoConnect l g) \<longrightarrow> g = globs) (main_async E globs)"
    by (rule emits_main_async) simp_all
  from emitsD[OF this run] mem show ?thesis
    by (auto simp: list_all_iff)
qed

lemma main_entrypoint_auto_connect:
  assumes "Call (AutoConnect loop g) \<in> set (snd (main_entrypoint E argv))"
  shows "g = port_globs_of argv \<and> g \<noteq> []"
proof (cases "port_globs_of argv = []")
  case True
  with assms show ?thesis
    by (auto simp: main_entrypoint_usage configure_logging_def)
next
  case False
  obtain r t where run: "main_async E (port_globs_of argv) (configure_logging argv) = (r, t)"
    by (cases "main_async E (port_globs_of argv) (configure_logging argv)")
  from assms False run have "Call (AutoConnect loop g) \<in> set t"
    by (auto simp: main_entrypoint_run configure_logging_def split: outcome.splits)
  from auto_connect_globs[OF run this] False show ?thesis by simp
qed

subsection \<open>Claim C2: without a port glob, usage and exit status 1, and no connection\<close>

text \<open>
  C2. When every argument after the program name is \<^verbatim>\<open>--debug\<close> (or there is none),
  the run consists of the optional logging configuration and the output of \<^verbatim>\<open>usage\<close>,
  it ends with \<^verbatim>\<open>sys.exit(1)\<close>, and \<^verbatim>\<open>asyncdgt.auto_connect\<close> is never called.
  In every run, whatever the arguments, a call of \<^verbatim>\<open>auto_connect\<close> gets a non-empty list
  of patterns.
\<close>

theorem no_port_glob_prints_usage:
  "((\<forall>arg \<in> set (drop 1 argv). arg = ''--debug'') \<longrightarrow>
      main_entrypoint E argv =
        (Exit 1, configure_logging argv @ [Print doc, Print ''  Probably one of:'', Call Comports]
                   @ map (Print \<circ> port_line) (comports E)) \<and>
      (\<forall>loop g. Call (AutoConnect loop g) \<notin> set (snd (main_entrypoint E argv)))) \<and>
   (\<forall>loop g. Call (AutoConnect loop g) \<in> set (snd (main_entrypoint E argv)) \<longrightarrow> g \<noteq> [])"
proof (intro conjI impI allI)
  assume "\<forall>arg \<in> set (drop 1 argv). arg = ''--debug''"
  then have empty: "port_globs_of argv = []"
    by (simp add: port_globs_of_empty)
  then show "main_entrypoint E argv =
        (Exit 1, configure_logging argv @ [Print doc, Print ''  Probably one of:'', Call Comports]
                   @ map (Print \<circ> port_line) (comports E))"
    by (rule main_entrypoint_usage)
  fix loop g
  show "Call (AutoConnect loop g) \<notin> set (snd (main_entrypoint E argv))"
    using main_entrypoint_auto_connect[of loop g E argv] empty by auto
next
  fix loop g
  assume "Call (AutoConnect loop g) \<in> set (snd (main_entrypoint E argv))"
  then show "g \<noteq> []"
    using main_entrypoint_auto_connect by blast
qed

theorem no_port_glob_prints_usage_witness:
  "main_entrypoint env_returning [''asyncdgt'', ''--debug''] =
     (Exit 1, [Call (BasicConfig ''DEBUG''), Print doc, Print ''  Probably one of:'', Call Comports,
               Print ''  * /dev/ttyUSB0 (USB VID:PID=0403:6001)''])"
  using no_port_glob_prints_usage[of "[''asyncdgt'', ''--debug'']" env_returning]
  by (simp add: configure_logging_def env_returning_def)

lemma emits_usage: "(\<And>s. P (Print s)) \<Longrightarrow> P (Call Comports) \<Longrightarrow> emits P (usage E)"
  by (simp add: emits_def usage_eq list_all_iff)

lemma main_async_starts:
  "\<exists>r t. main_async E globs h =
     (r, [Call GetRunningLoop, Call (AutoConnect (running_loop E) globs)] @ t)"
  by (simp add: main_async_def and_then_def log_call_def call_def split: prod.splits outcome.splits)

lemma no_basic_config:
  "main_async E globs h = (r, t) \<Longrightarrow> Call (BasicConfig level) \<notin> set t"
proof -
  assume run: "main_async E globs h = (r, t)"
  have "emits (\<lambda>ev. \<forall>level. ev \<noteq> Call (BasicConfig level)) (main_async E globs)"
    by (rule emits_main_async) simp_all
  from emitsD[OF this run] show ?thesis
    by (auto simp: list_all_iff)
qed

lemma basic_config_iff:
  "Call (BasicConfig ''DEBUG'') \<in> set (snd (main_entrypoint E argv)) \<longleftrightarrow> ''--debug'' \<in> set argv"
proof (cases "port_globs_of argv = []")
  case True
  then show ?thesis
    by (auto simp: main_entrypoint_usage configure_logging_def)
next
  case False
  obtain r t where run: "main_async E (port_globs_of argv) (configure_logging argv) = (r, t)"
    by (cases "main_async E (port_globs_of argv) (configure_logging argv)")
  from no_basic_config[OF run] False run show ?thesis
    by (auto simp: main_entrypoint_run configure_logging_def split: outcome.splits)
qed

subsection \<open>Claim C9: \<^verbatim>\<open>--debug\<close> is a switch, every other argument a port glob\<close>

text \<open>
  C9. The port globs are the arguments after the program name with every occurrence of
  \<^verbatim>\<open>--debug\<close> deleted, wherever it stands: the other arguments stay as they are and in
  their order. An occurrence of \<^verbatim>\<open>--debug\<close> among the arguments makes the run call
  \<^verbatim>\<open>logging.basicConfig(level=logging.DEBUG)\<close> (the call happens exactly when
  \<^verbatim>\<open>--debug\<close> is an element of \<^verbatim>\<open>sys.argv\<close>). The list that reaches
  \<^verbatim>\<open>asyncdgt.auto_connect\<close> is this list of globs: it is the argument of the first
  fallible call of the run, and of any \<^verbatim>\<open>auto_connect\<close> call of the run.
\<close>

theorem debug_flag_is_not_a_glob:
  "port_globs_of argv = removeAll ''--debug'' (drop 1 argv) \<and>
   ''--debug'' \<notin> set (port_globs_of argv) \<and>
   subseq (port_globs_of argv) (drop 1 argv) \<and>
   (''--debug'' \<in> set (drop 1 argv) \<longrightarrow>
      Call (BasicConfig ''DEBUG'') \<in> set (snd (main_entrypoint E argv))) \<and>
   (Call (BasicConfig ''DEBUG'') \<in> set (snd (main_entrypoint E argv)) \<longleftrightarrow> ''--debug'' \<in> set argv) \<and>
   (\<forall>loop g. Call (AutoConnect loop g) \<in> set (snd (main_entrypoint E argv)) \<longrightarrow>
      g = port_globs_of argv) \<and>
   (port_globs_of argv \<noteq> [] \<longrightarrow>
      take 2 (drop (length (configure_logging argv)) (snd (main_entrypoint E argv))) =
        [Call GetRunningLoop, Call (AutoConnect (running_loop E) (port_globs_of argv))])"
proof (intro conjI impI allI)
  show "port_globs_of argv = removeAll ''--debug'' (drop 1 argv)"
    by (simp add: port_globs_of_def removeAll_filter_not_eq) metis
  show "''--debug'' \<notin> set (port_globs_of argv)"
    by (simp add: port_globs_of_def)
  show "subseq (port_globs_of argv) (drop 1 argv)"
    by (simp add: port_globs_of_def)
  show "Call (BasicConfig ''DEBUG'') \<in> set (snd (main_entrypoint E argv)) \<longleftrightarrow> ''--debug'' \<in> set argv"
    by (rule basic_config_iff)
  show "Call (BasicConfig ''DEBUG'') \<in> set (snd (main_entrypoint E argv))"
    if "''--debug'' \<in> set (drop 1 argv)"
    using that basic_config_iff[of E argv] by (auto dest: in_set_dropD)
  show "g = port_globs_of argv"
    if "Call (AutoConnect loop g) \<in> set (snd (main_entrypoint E argv))" for loop g
    using that main_entrypoint_auto_connect by blast
  show "take 2 (drop (length (configure_logging argv)) (snd (main_entrypoint E argv))) =
        [Call GetRunningLoop, Call (AutoConnect (running_loop E) (port_globs_of argv))]"
    if "port_globs_of argv \<noteq> []"
    using that main_async_starts[of E "port_globs_of argv" "configure_logging argv"]
    by (auto simp: main_entrypoint_run split: outcome.splits)
qed

theorem debug_flag_is_not_a_glob_witness:
  "port_globs_of [''asyncdgt'', ''/dev/ttyUSB*'', ''--debug'', ''/dev/ttyACM*'', ''--debug'']
     = [''/dev/ttyUSB*'', ''/dev/ttyACM*''] \<and>
   take 3 (snd (main_entrypoint env_returning
        [''asyncdgt'', ''/dev/ttyUSB*'', ''--debug'', ''/dev/ttyACM*'', ''--debug''])) =
     [Call (BasicConfig ''DEBUG''), Call GetRunningLoop,
      Call (AutoConnect ''loop'' [''/dev/ttyUSB*'', ''/dev/ttyACM*''])]"
proof -
  let ?argv = "[''asyncdgt'', ''/dev/ttyUSB*'', ''--debug'', ''/dev/ttyACM*'', ''--debug'']"
  have globs: "port_globs_of ?argv = [''/dev/ttyUSB*'', ''/dev/ttyACM*'']"
    by (simp add: port_globs_of_def)
  have logging: "configure_logging ?argv = [Call (BasicConfig ''DEBUG'')]"
    by (simp add: configure_logging_def)
  have first: "take 1 (snd (main_entrypoint env_returning ?argv)) = [Call (BasicConfig ''DEBUG'')]"
    by (simp add: main_entrypoint_run globs logging split: prod.splits outcome.splits)
  from debug_flag_is_not_a_glob[of ?argv env_returning]
  have "take 2 (drop 1 (snd (main_entrypoint env_returning ?argv))) =
        [Call GetRunningLoop, Call (AutoConnect ''loop'' [''/dev/ttyUSB*'', ''/dev/ttyACM*''])]"
    by (simp add: globs logging env_returning_def)
  with first globs show ?thesis
    by (cases "snd (main_entrypoint env_returning ?argv)") auto
qed

subsection \<open>Claim C10: the exit status\<close>





subsection \<open>Claim C8: \<^verbatim>\<open>clock_display_sentence\<close> attempts every word\<close>

lemma calls_append: "calls (t @ t') = calls t @ calls t'"
  by (induction t rule: calls.induct) simp_all

lemma split_from_space:
  "is_space c \<Longrightarrow> split_from w (u @ c # v) = split_from w u @ split_from [] v"
  by (induction u arbitrary: w) simp_all

lemma split_from_word:
  "\<forall>c \<in> set u. \<not> is_space c \<Longrightarrow> split_from w u = (if w @ u = [] then [] else [w @ u])"
  by (induction u arbitrary: w) simp_all

lemma split_from_words:
  "word \<in> set (split_from w s) \<Longrightarrow> \<forall>c \<in> set w. \<not> is_space c \<Longrightarrow>
     word \<noteq> [] \<and> (\<forall>c \<in> set word. \<not> is_space c)"
proof (induction s arbitrary: w)
  case Nil
  then show ?case by (simp split: if_splits)
next
  case (Cons a s)
  show ?case
  proof (cases "is_space a")
    case True
    from Cons.prems(1) True have "word = w \<and> w \<noteq> [] \<or> word \<in> set (split_from [] s)"
      by (simp split: if_splits)
    then show ?thesis
      using Cons.IH[of "[]"] Cons.prems(2) by auto
  next
    case False
    from Cons.prems(1) False have "word \<in> set (split_from (w @ [a]) s)"
      by simp
    moreover have "\<forall>c \<in> set (w @ [a]). \<not> is_space c"
      using Cons.prems(2) False by simp
    ultimately show ?thesis
      by (rule Cons.IH)
  qed
qed

lemma concat_split_from: "concat (split_from w s) = w @ filter (\<lambda>c. \<not> is_space c) s"
  by (induction s arbitrary: w) auto

text \<open>What \<^verbatim>\<open>str.split()\<close> computes.\<close>

lemma str_split_space: "is_space c \<Longrightarrow> str_split (u @ c # v) = str_split u @ str_split v"
  by (simp add: str_split_def split_from_space)

lemma str_split_word: "w \<noteq> [] \<Longrightarrow> \<forall>c \<in> set w. \<not> is_space c \<Longrightarrow> str_split w = [w]"
  by (simp add: str_split_def split_from_word)

lemma str_split_words:
  "word \<in> set (str_split s) \<Longrightarrow> word \<noteq> [] \<and> (\<forall>c \<in> set word. \<not> is_space c)"
  using split_from_words[of word "[]" s] by (simp add: str_split_def)

lemma concat_str_split: "concat (str_split s) = filter (\<lambda>c. \<not> is_space c) s"
  by (simp add: str_split_def concat_split_from)





subsection \<open>The shape of a run of \<^verbatim>\<open>main_async\<close>\<close>

lemma reaches_emits: "emits P p \<Longrightarrow> reaches P Q p"
  by (simp add: emits_def reaches_def)

lemma reaches_and_then:
  assumes p: "emits P p" and f: "\<And>a. reaches P Q (f a)"
  shows "reaches P Q (and_then p f)"
  unfolding reaches_def
proof
  fix h
  obtain r t where ph: "p h = (r, t)" by (cases "p h")
  from emitsD[OF p ph] have Pt: "list_all P t" .
  show "list_all P (snd (and_then p f h)) \<or>
        (\<exists>t1 t2. snd (and_then p f h) = t1 @ t2 \<and> list_all P t1 \<and> Q (h @ t1) t2)"
  proof (cases r)
    case (Raises e)
    with ph Pt show ?thesis by (simp add: and_then_def)
  next
    case (Returns a)
    obtain r' t' where fh: "f a (h @ t) = (r', t')" by (cases "f a (h @ t)")
    with ph Returns have eq: "snd (and_then p f h) = t @ t'"
      by (simp add: and_then_def)
    from f[of a] fh consider "list_all P t'"
      | t1 t2 where "t' = t1 @ t2" "list_all P t1" "Q ((h @ t) @ t1) t2"
      unfolding reaches_def by (metis snd_conv)
    then show ?thesis
    proof cases
      case 1
      with Pt eq show ?thesis by simp
    next
      case 2
      with Pt eq have "snd (and_then p f h) = (t @ t1) @ t2 \<and> list_all P (t @ t1) \<and> Q (h @ (t @ t1)) t2"
        by simp
      then show ?thesis by blast
    qed
  qed
qed

lemma reaches_here: "(\<And>h. Q h (snd (p h))) \<Longrightarrow> reaches P Q p"
  unfolding reaches_def
proof
  fix h
  assume Q: "\<And>h. Q h (snd (p h))"
  have "snd (p h) = [] @ snd (p h) \<and> list_all P [] \<and> Q (h @ []) (snd (p h))"
    using Q[of h] by simp
  then show "list_all P (snd (p h)) \<or>
        (\<exists>t1 t2. snd (p h) = t1 @ t2 \<and> list_all P t1 \<and> Q (h @ t1) t2)"
    by blast
qed

lemma snd_and_then_ret: "snd (and_then p (\<lambda>_. ret x) h) = snd (p h)"
  by (simp add: and_then_def ret_def split: prod.splits outcome.splits)

lemma reaches_log_call:
  assumes c: "P (Call c)" and f: "reaches P Q (f a)"
  shows "reaches P Q (and_then (log_call c a) f)"
  unfolding reaches_def
proof
  fix h
  obtain r t where fh: "f a (h @ [Call c]) = (r, t)" by (cases "f a (h @ [Call c])")
  then have eq: "snd (and_then (log_call c a) f h) = Call c # t"
    by (simp add: and_then_def log_call_def)
  from f fh consider "list_all P t"
    | t1 t2 where "t = t1 @ t2" "list_all P t1" "Q ((h @ [Call c]) @ t1) t2"
    unfolding reaches_def by (metis snd_conv)
  then show "list_all P (snd (and_then (log_call c a) f h)) \<or>
        (\<exists>t1 t2. snd (and_then (log_call c a) f h) = t1 @ t2 \<and> list_all P t1 \<and> Q (h @ t1) t2)"
  proof cases
    case 1
    with c eq show ?thesis by simp
  next
    case 2
    with c eq have "snd (and_then (log_call c a) f h) = (Call c # t1) @ t2 \<and>
        list_all P (Call c # t1) \<and> Q (h @ (Call c # t1)) t2"
      by simp
    then show ?thesis by blast
  qed
qed

lemma event_loop_shape:
  "reaches setup_event (\<lambda>h' t2. \<exists>dgt. t2 = snd (run_event_loop E dgt loop h'))
     (and_then (demo_commands E dgt) (\<lambda>_.
      and_then (print ''Running event loop ... Press Ctrl+C to exit.'') (\<lambda>_.
      and_then (run_event_loop E dgt loop) (\<lambda>_.
      ret (Some 0)))))"
proof -
  let ?Q = "\<lambda>h' t2. \<exists>dgt. t2 = snd (run_event_loop E dgt loop h')"
  have 1: "reaches setup_event ?Q (and_then (run_event_loop E dgt loop) (\<lambda>_. ret (Some 0)))"
    by (rule reaches_here) (auto simp: snd_and_then_ret)
  have 2: "reaches setup_event ?Q
      (and_then (print ''Running event loop ... Press Ctrl+C to exit.'') (\<lambda>_.
       and_then (run_event_loop E dgt loop) (\<lambda>_. ret (Some 0))))"
    by (rule reaches_and_then) (simp_all add: emits_print setup_event_def 1)
  show ?thesis
    by (rule reaches_and_then) (simp_all add: emits_demo_commands setup_event_def 2)
qed

lemma main_async_shape:
  "reaches setup_event (\<lambda>h' t2. \<exists>dgt. t2 = snd (run_event_loop E dgt (running_loop E) h'))
     (main_async E globs)"
  unfolding main_async_def
  apply (rule reaches_log_call)
   apply (simp add: setup_event_def)
  apply (intro reaches_and_then emits_call emits_register_handlers emits_get_information)
  apply (auto simp: setup_event_def event_loop_shape reaches_emits emits_ret)
  done

lemma cancel_all_eq: "cancel_all ts h = (Returns (), map (Call \<circ> Cancel) ts)"
  by (induction ts arbitrary: h) (simp_all add: ret_def and_then_def log_call_def)

lemma cancel_pending_starts:
  "\<exists>r rest. cancel_pending E loop h =
     (r, Call (AllTasks loop) # map (Call \<circ> Cancel) (all_tasks E h)
           @ Call (Gather (all_tasks E h)) # rest)"
  by (simp add: cancel_pending_def and_then_def log_call_def cancel_all_eq call_def
      split: prod.splits outcome.splits)

lemma cancel_pending_no_close:
  "list_all (\<lambda>ev. \<not> is_close ev) (snd (cancel_pending E loop h))"
proof -
  have "emits (\<lambda>ev. \<not> is_close ev) (cancel_pending E loop)"
    unfolding cancel_pending_def
    by (intro emits_intros emits_cancel_all emits_all_tasks) simp_all
  then show ?thesis by (simp add: emits_def)
qed

lemma run_event_loop_starts:
  "\<exists>rest. snd (run_event_loop E dgt loop h) = Call ForeverFuture # rest"
  by (auto simp: run_event_loop_def try_finally_def try_except_def and_then_def call_def ret_def
      print_def split: prod.splits outcome.splits option.splits exn.splits)

lemma run_event_loop_cancelled:
  assumes "respond E h ForeverFuture = Raises (CancelledError m)"
  shows "snd (run_event_loop E dgt loop h) =
           Call ForeverFuture
           # Print cancelled_message
           # Call (Method dgt ''close'' [] [])
           # (case respond E (h @ [Call ForeverFuture,
                     Print cancelled_message])
                   (Method dgt ''close'' [] []) of
                Raises e \<Rightarrow> []
              | Returns v \<Rightarrow>
                  snd (cancel_pending E loop (h @ [Call ForeverFuture,
                     Print cancelled_message,
                     Call (Method dgt ''close'' [] [])])))"
  using assms
  by (simp add: run_event_loop_def try_finally_def try_except_def and_then_def call_def ret_def
      print_def shutdown_def split: prod.splits outcome.splits)

lemma first_occurrence:
  "x \<notin> set xs \<Longrightarrow> x \<notin> set xs' \<Longrightarrow> xs @ x # ys = xs' @ x # ys' \<Longrightarrow> xs = xs' \<and> ys = ys'"
proof (induction xs arbitrary: xs')
  case Nil
  then show ?case by (cases xs') auto
next
  case (Cons a xs)
  then show ?case by (cases xs') auto
qed

lemma main_async_wait:
  assumes run: "main_async E globs h = (r, t)"
    and split: "t = pre @ Call ForeverFuture # post"
    and first: "Call ForeverFuture \<notin> set pre"
  shows "list_all setup_event pre \<and>
         (\<exists>dgt. Call ForeverFuture # post = snd (run_event_loop E dgt (running_loop E) (h @ pre)))"
proof -
  from main_async_shape[of E globs] run
  consider "list_all setup_event t"
    | t1 t2 dgt where "t = t1 @ t2" "list_all setup_event t1"
        "t2 = snd (run_event_loop E dgt (running_loop E) (h @ t1))"
    unfolding reaches_def by (metis snd_conv)
  then show ?thesis
  proof cases
    case 1
    with split show ?thesis by (simp add: setup_event_def)
  next
    case 2
    from run_event_loop_starts[of E dgt "running_loop E" "h @ t1"] 2(3)
    obtain rest where rest: "t2 = Call ForeverFuture # rest" by auto
    from 2(2) have "Call ForeverFuture \<notin> set t1"
      by (auto simp: list_all_iff setup_event_def)
    with first split 2(1) rest have "pre = t1 \<and> post = rest"
      by (intro first_occurrence[of "Call ForeverFuture"]) auto
    with 2 rest show ?thesis by auto
  qed
qed

lemma list_all_not_filter: "list_all (\<lambda>x. \<not> P x) xs \<Longrightarrow> filter P xs = []"
  by (induction xs) auto

subsection \<open>Claim C5: shutdown closes the handle first, then cancels the tasks\<close>

text \<open>
  C5. Take a run of \<^verbatim>\<open>main_async\<close> that reaches the long-lived wait of line 147
  (\<open>pre\<close> is what happened before it) and in which that wait is cancelled. What follows
  is the message of line 149 and then \<^verbatim>\<open>dgt.close()\<close>. It is the only
  \<^verbatim>\<open>close()\<close> of the whole run, and no \<^verbatim>\<open>task.cancel()\<close> and no
  \<^verbatim>\<open>asyncio.gather\<close> comes before it. When \<^verbatim>\<open>close()\<close> returns, the run goes on with
  \<^verbatim>\<open>asyncio.all_tasks\<close>, one \<^verbatim>\<open>task.cancel()\<close> for each pending task and the
  \<^verbatim>\<open>asyncio.gather\<close> of the pending tasks.
\<close>

theorem shutdown_closes_then_cancels:
  assumes run: "main_async E globs h = (r, t)"
    and split: "t = pre @ Call ForeverFuture # post"
    and first: "Call ForeverFuture \<notin> set pre"
    and cancelled: "respond E (h @ pre) ForeverFuture = Raises (CancelledError m)"
  shows "\<exists>dgt rest.
      post = Print cancelled_message
             # Call (Method dgt ''close'' [] []) # rest \<and>
      filter is_close t = [Call (Method dgt ''close'' [] [])] \<and>
      filter is_task_cancellation (pre @ [Call ForeverFuture,
          Print cancelled_message,
          Call (Method dgt ''close'' [] [])]) = [] \<and>
      (\<forall>v. respond E (h @ pre @ [Call ForeverFuture,
                 Print cancelled_message])
               (Method dgt ''close'' [] []) = Returns v \<longrightarrow>
           (let pending = all_tasks E (h @ pre @ [Call ForeverFuture,
                 Print cancelled_message,
                 Call (Method dgt ''close'' [] [])])
            in \<exists>rest'. rest = Call (AllTasks (running_loop E)) # map (Call \<circ> Cancel) pending
                                 @ Call (Gather pending) # rest'))"
proof -
  let ?msg = "Print cancelled_message"
  from main_async_wait[OF run split first]
  obtain dgt where pre: "list_all setup_event pre"
    and loop: "Call ForeverFuture # post = snd (run_event_loop E dgt (running_loop E) (h @ pre))"
    by blast
  let ?close = "Call (Method dgt ''close'' [] [])"
  let ?h1 = "h @ pre @ [Call ForeverFuture, ?msg]"
  let ?h2 = "h @ pre @ [Call ForeverFuture, ?msg, ?close]"
  define rest where "rest =
    (case respond E ?h1 (Method dgt ''close'' [] []) of
       Raises e \<Rightarrow> []
     | Returns v \<Rightarrow> snd (cancel_pending E (running_loop E) ?h2))"
  from loop run_event_loop_cancelled[OF cancelled, of dgt "running_loop E"]
  have post: "post = ?msg # ?close # rest"
    by (simp add: rest_def cong: outcome.case_cong)
  have no_close_rest: "filter is_close rest = []"
    using cancel_pending_no_close[of E "running_loop E" ?h2]
    by (auto simp: rest_def intro: list_all_not_filter split: outcome.splits)
  from pre have no_close_pre: "filter is_close pre = []"
    by (intro list_all_not_filter) (auto simp: list_all_iff setup_event_def)
  from pre have no_cancel_pre: "filter is_task_cancellation pre = []"
    by (intro list_all_not_filter) (auto simp: list_all_iff setup_event_def)
  have once: "filter is_close t = [?close]"
    by (simp add: split post no_close_pre no_close_rest)
  have before: "filter is_task_cancellation (pre @ [Call ForeverFuture, ?msg, ?close]) = []"
    by (simp add: no_cancel_pre)
  have after: "\<exists>rest'. rest = Call (AllTasks (running_loop E)) # map (Call \<circ> Cancel) (all_tasks E ?h2)
                                 @ Call (Gather (all_tasks E ?h2)) # rest'"
    if "respond E ?h1 (Method dgt ''close'' [] []) = Returns v" for v
    using that cancel_pending_starts[of E "running_loop E" ?h2]
    by (auto simp: rest_def)
  from post once before after show ?thesis
    unfolding Let_def by blast
qed

theorem shutdown_closes_then_cancels_witness:
  "drop 45 (snd (main_async env_returning [''/dev/ttyUSB0''] [])) =
     [Call ForeverFuture, Print cancelled_message, Call (Method ''ok'' ''close'' [] []),
      Call (AllTasks ''loop''), Call (Cancel 0), Call (Cancel 1), Call (Gather [0, 1]),
      Call (LoopClose ''loop''), Print ''Event loop closed.''] \<and>
   filter is_close (snd (main_async env_returning [''/dev/ttyUSB0''] [])) =
     [Call (Method ''ok'' ''close'' [] [])]"
proof -
  define t where "t = snd (main_async env_returning [''/dev/ttyUSB0''] [])"
  have run: "main_async env_returning [''/dev/ttyUSB0''] [] =
      (fst (main_async env_returning [''/dev/ttyUSB0''] []), t)"
    by (simp add: t_def)
  have split: "t = take 45 t @ Call ForeverFuture # drop 46 t"
    unfolding t_def by code_simp
  have first: "Call ForeverFuture \<notin> set (take 45 t)"
    unfolding t_def by code_simp
  have cancelled: "respond env_returning ([] @ take 45 t) ForeverFuture = Raises (CancelledError [])"
    by (simp add: env_returning_def)
  have tail: "drop 45 t =
     [Call ForeverFuture, Print cancelled_message, Call (Method ''ok'' ''close'' [] []),
      Call (AllTasks ''loop''), Call (Cancel 0), Call (Cancel 1), Call (Gather [0, 1]),
      Call (LoopClose ''loop''), Print ''Event loop closed.'']"
    unfolding t_def by code_simp
  have post: "drop 46 t =
     [Print cancelled_message, Call (Method ''ok'' ''close'' [] []),
      Call (AllTasks ''loop''), Call (Cancel 0), Call (Cancel 1), Call (Gather [0, 1]),
      Call (LoopClose ''loop''), Print ''Event loop closed.'']"
    unfolding t_def by code_simp
  from shutdown_closes_then_cancels[OF run split first cancelled]
  obtain dgt rest where "drop 46 t = Print cancelled_message # Call (Method dgt ''close'' [] []) # rest"
    and "filter is_close t = [Call (Method dgt ''close'' [] [])]"
    by blast
  with post have "filter is_close t = [Call (Method ''ok'' ''close'' [] [])]"
    by simp
  with tail show ?thesis
    by (simp add: t_def)
qed

subsection \<open>Claim C1: a timeout stays with the call that timed out\<close>














subsection \<open>Claim C3: the names under which the demo drives the handle\<close>












subsection \<open>Claim C4: one printing handler for each kind of event\<close>

lemma registrations_append: "registrations (t @ t') = registrations t @ registrations t'"
  by (simp add: registrations_def calls_append)

lemma registrations_none:
  assumes "list_all (\<lambda>ev. \<forall>dgt kind hd. ev \<noteq> Call (On dgt kind hd)) t"
  shows "registrations t = []"
  using assms unfolding registrations_def
proof (induction t rule: calls.induct)
  case 1
  show ?case by simp
next
  case (2 c t)
  then show ?case by (cases c) auto
next
  case (3 s t)
  then show ?case by simp
qed

lemma register_handlers_trace:
  assumes "\<forall>h kind hd. \<exists>v. respond E h (On dgt kind hd) = Returns v"
  shows "register_handlers E dgt h =
           (Returns (), map (\<lambda>(kind, hd). Call (On dgt kind hd)) demo_handlers)"
proof -
  from assms obtain f where f: "\<And>h kind hd. respond E h (On dgt kind hd) = Returns (f h kind hd)"
    by metis
  show ?thesis
    by (simp add: register_handlers_def and_then_def call_def ret_def demo_handlers_def f)
qed

lemma after_registration_emits:
  "emits (\<lambda>ev. \<forall>dgt kind hd. ev \<noteq> Call (On dgt kind hd))
     (and_then (call E (Sleep 0.1)) (\<lambda>_.
      and_then (get_information E dgt) (\<lambda>returned.
        if returned then ret None
        else
          and_then (demo_commands E dgt) (\<lambda>_.
          and_then (print ''Running event loop ... Press Ctrl+C to exit.'') (\<lambda>_.
          and_then (run_event_loop E dgt loop) (\<lambda>_.
          ret (Some (0::int))))))))"
  by (intro emits_intros emits_get_information)
     (auto intro!: emits_intros emits_run_event_loop emits_demo_commands)

lemma snd_and_then_Returns:
  "p h = (Returns a, t) \<Longrightarrow> snd (and_then p f h) = t @ snd (f a (h @ t))"
  by (simp add: and_then_def split: prod.splits)

lemma main_async_registrations:
  assumes connect: "\<forall>h. \<exists>dgt. respond E h (AutoConnect (running_loop E) globs) = Returns dgt"
    and register: "\<forall>h dgt kind hd. \<exists>v. respond E h (On dgt kind hd) = Returns v"
  shows "registrations (snd (main_async E globs h)) = demo_handlers"
proof -
  let ?loop = "running_loop E"
  let ?h1 = "h @ [Call GetRunningLoop]"
  let ?h2 = "h @ [Call GetRunningLoop, Call (AutoConnect ?loop globs)]"
  have 1: "log_call GetRunningLoop ?loop h = (Returns ?loop, [Call GetRunningLoop])"
    by (simp add: log_call_def)
  from connect obtain dgt where "respond E ?h1 (AutoConnect ?loop globs) = Returns dgt"
    by blast
  then have 2: "call E (AutoConnect ?loop globs) ?h1 = (Returns dgt, [Call (AutoConnect ?loop globs)])"
    by (simp add: call_def)
  let ?t_reg = "map (\<lambda>(kind, hd). Call (On dgt kind hd)) demo_handlers"
  from register have 3: "register_handlers E dgt ?h2 = (Returns (), ?t_reg)"
    by (intro register_handlers_trace) simp
  define rest where "rest = and_then (call E (Sleep 0.1)) (\<lambda>_.
      and_then (get_information E dgt) (\<lambda>returned.
        if returned then ret None
        else
          and_then (demo_commands E dgt) (\<lambda>_.
          and_then (print ''Running event loop ... Press Ctrl+C to exit.'') (\<lambda>_.
          and_then (run_event_loop E dgt ?loop) (\<lambda>_.
          ret (Some (0::int)))))))"
  have "emits (\<lambda>ev. \<forall>dgt kind hd. ev \<noteq> Call (On dgt kind hd)) rest"
    unfolding rest_def by (rule after_registration_emits)
  then have "list_all (\<lambda>ev. \<forall>dgt kind hd. ev \<noteq> Call (On dgt kind hd)) (snd (rest (?h2 @ ?t_reg)))"
    by (simp add: emits_def)
  then have none: "registrations (snd (rest (?h2 @ ?t_reg))) = []"
    by (rule registrations_none)
  have trace: "snd (main_async E globs h) =
      [Call GetRunningLoop, Call (AutoConnect ?loop globs)] @ ?t_reg @ snd (rest (?h2 @ ?t_reg))"
    unfolding main_async_def
    by (simp add: snd_and_then_Returns[of "log_call GetRunningLoop ?loop" h, OF 1]
        snd_and_then_Returns[of "call E (AutoConnect ?loop globs)" ?h1, OF 2]
        snd_and_then_Returns[of "register_handlers E dgt" ?h2, OF 3] rest_def)
  have r0: "registrations [Call GetRunningLoop, Call (AutoConnect ?loop globs)] = []"
    by (simp add: registrations_def)
  have r1: "registrations ?t_reg = demo_handlers"
    by (simp add: registrations_def demo_handlers_def)
  show ?thesis
    unfolding trace registrations_append r0 r1 none by simp
qed


lemma registrations_subset:
  assumes "list_all (\<lambda>ev. \<forall>dgt kind hd. ev = Call (On dgt kind hd) \<longrightarrow> (kind, hd) \<in> S) t"
  shows "set (registrations t) \<subseteq> S"
  using assms unfolding registrations_def
proof (induction t rule: calls.induct)
  case 1
  show ?case by simp
next
  case (2 c t)
  then show ?case by (cases c) auto
next
  case (3 s t)
  then show ?case by simp
qed

lemma main_async_registrations_subset:
  "set (registrations (snd (main_async E globs h))) \<subseteq> set demo_handlers"
proof -
  have "emits (\<lambda>ev. \<forall>dgt kind hd. ev = Call (On dgt kind hd) \<longrightarrow> (kind, hd) \<in> set demo_handlers)
          (main_async E globs)"
    by (rule emits_main_async) simp_all
  then show ?thesis
    by (intro registrations_subset) (simp add: emits_def)
qed

lemma run_handler_arity:
  "run_handler fn args \<noteq> None \<longleftrightarrow> length args = (if fn = on_disconnected then 0 else 1)"
  by (induction fn args rule: run_handler.induct) simp_all

lemma run_handler_prints: "run_handler fn args = Some lines \<Longrightarrow> lines \<noteq> []"
  by (induction fn args rule: run_handler.induct) auto

text \<open>
  C4. The table of the spec has exactly five kinds of event, each once. The handlers
  that \<^verbatim>\<open>main_async\<close> registers with \<^verbatim>\<open>dgt.on(kind)\<close> are one for each of these
  kinds, in the order of the table. Each of them accepts exactly as many arguments as
  the payload of its kind has values (one, and none for \<^verbatim>\<open>disconnected\<close>) and prints
  at least one line when it is called so. No run registers any other handler, and a run
  in which the connection is made and the registrations return registers these five.
\<close>

theorem one_printing_handler_per_event_kind:
  "length supported_events = 5 \<and> distinct (map fst supported_events) \<and>
   map fst demo_handlers = map fst supported_events \<and>
   (\<forall>(kind, fn) \<in> set demo_handlers. \<forall>args.
      (run_handler fn args \<noteq> None) =
        (map_option length (map_of supported_events kind) = Some (length args))) \<and>
   (\<forall>(kind, fn) \<in> set demo_handlers. \<forall>args lines.
      run_handler fn args = Some lines \<longrightarrow> lines \<noteq> []) \<and>
   set (registrations (snd (main_async E globs h))) \<subseteq> set demo_handlers \<and>
   ((\<forall>h. \<exists>dgt. respond E h (AutoConnect (running_loop E) globs) = Returns dgt) \<and>
    (\<forall>h dgt kind fn. \<exists>v. respond E h (On dgt kind fn) = Returns v) \<longrightarrow>
      registrations (snd (main_async E globs h)) = demo_handlers)"
proof (intro conjI)
  show "length supported_events = 5" "distinct (map fst supported_events)"
    "map fst demo_handlers = map fst supported_events"
    by (simp_all add: supported_events_def demo_handlers_def)
  show "\<forall>(kind, fn) \<in> set demo_handlers. \<forall>args.
      (run_handler fn args \<noteq> None) =
        (map_option length (map_of supported_events kind) = Some (length args))"
    unfolding run_handler_arity
    by (auto simp: demo_handlers_def supported_events_def)
  show "\<forall>(kind, fn) \<in> set demo_handlers. \<forall>args lines.
      run_handler fn args = Some lines \<longrightarrow> lines \<noteq> []"
    by (auto dest: run_handler_prints)
  show "set (registrations (snd (main_async E globs h))) \<subseteq> set demo_handlers"
    by (rule main_async_registrations_subset)
  show "(\<forall>h. \<exists>dgt. respond E h (AutoConnect (running_loop E) globs) = Returns dgt) \<and>
    (\<forall>h dgt kind fn. \<exists>v. respond E h (On dgt kind fn) = Returns v) \<longrightarrow>
      registrations (snd (main_async E globs h)) = demo_handlers"
    using main_async_registrations by blast
qed

theorem one_printing_handler_per_event_kind_witness:
  "registrations (snd (main_async env_returning [''/dev/ttyUSB0''] [])) =
     [(''connected'', on_connected), (''disconnected'', on_disconnected), (''board'', on_board),
      (''button_pressed'', on_button_pressed), (''clock'', on_clock)] \<and>
   run_handler on_connected [''/dev/ttyUSB0''] = Some [''Board connected to /dev/ttyUSB0!''] \<and>
   run_handler on_disconnected [] = Some [''Board disconnected!''] \<and>
   run_handler on_disconnected [''/dev/ttyUSB0''] = None"
proof -
  have "\<forall>h. \<exists>dgt. respond env_returning h
      (AutoConnect (running_loop env_returning) [''/dev/ttyUSB0'']) = Returns dgt"
    by (simp add: env_returning_def)
  moreover have "\<forall>h dgt kind fn. \<exists>v. respond env_returning h (On dgt kind fn) = Returns v"
    by (simp add: env_returning_def)
  ultimately show ?thesis
    using one_printing_handler_per_event_kind[of env_returning "[''/dev/ttyUSB0'']" "[]"]
    by (simp add: demo_handlers_def)
qed

section \<open>Properties of the board serialization\<close>

subsection \<open>Claim C7: the FEN-like string of a board\<close>

lemma digit_value_digit: "0 < n \<Longrightarrow> n \<le> 8 \<Longrightarrow> digit_value (digit n) = Some n"
  by (simp add: digit_value_def digit_def)

lemma expand_rank_append: "expand_rank (a @ b) = expand_rank a @ expand_rank b"
  by (induction a) simp_all

lemma expand_empty_run: "n \<le> 8 \<Longrightarrow> expand_rank (empty_run n) = replicate n None"
  by (simp add: empty_run_def digit_value_digit)

lemma expand_rank_fen:
  "n + length squares \<le> 8 \<Longrightarrow> \<forall>piece. Some piece \<in> set squares \<longrightarrow> piece_letter piece \<Longrightarrow>
     expand_rank (rank_fen n squares) = replicate n None @ squares"
proof (induction n squares rule: rank_fen.induct)
  case (1 n)
  then show ?case by (simp add: expand_empty_run)
next
  case (2 n squares)
  then show ?case by (simp add: replicate_app_Cons_same)
next
  case (3 n piece squares)
  then show ?case
    by (simp add: expand_rank_append expand_empty_run piece_letter_def)
qed

lemma rank_fen_chars:
  "n + length squares \<le> 8 \<Longrightarrow> c \<in> set (rank_fen n squares) \<Longrightarrow>
     (\<exists>k. 0 < k \<and> k \<le> 8 \<and> c = digit k) \<or> Some c \<in> set squares"
proof (induction n squares rule: rank_fen.induct)
  case (1 n)
  then show ?case by (auto simp: empty_run_def split: if_splits)
next
  case (2 n squares)
  then show ?case by auto
next
  case (3 n piece squares)
  then show ?case by (auto simp: empty_run_def split: if_splits)
qed

lemma of_char_digit: "k \<le> 8 \<Longrightarrow> (of_char (digit k) :: nat) = 48 + k"
  by (simp add: digit_def)

lemma digit_not_separator:
  assumes "k \<le> 8"
  shows "digit k \<noteq> CHR ''/'' \<and> digit k \<noteq> CHR '' ''"
proof -
  have "(of_char (digit k) :: nat) \<noteq> of_char (CHR ''/'')"
    "(of_char (digit k) :: nat) \<noteq> of_char (CHR '' '')"
    using assms by (simp_all add: of_char_digit)
  then show ?thesis by auto
qed

lemma rank_fen_no_separator:
  assumes "n + length squares \<le> 8"
    and "\<forall>piece. Some piece \<in> set squares \<longrightarrow> piece_letter piece"
  shows "CHR ''/'' \<notin> set (rank_fen n squares) \<and> CHR '' '' \<notin> set (rank_fen n squares)"
proof -
  have "c \<notin> set (rank_fen n squares)" if c: "c = CHR ''/'' \<or> c = CHR '' ''" for c
  proof
    assume "c \<in> set (rank_fen n squares)"
    from rank_fen_chars[OF assms(1) this]
    consider k where "0 < k" "k \<le> 8" "c = digit k" | "Some c \<in> set squares"
      by blast
    then show False
    proof cases
      case 1
      with c digit_not_separator[of k] show False by auto
    next
      case 2
      with assms(2) c show False by (auto simp: piece_letter_def)
    qed
  qed
  then show ?thesis by simp
qed

lemma split_ranks_last: "CHR ''/'' \<notin> set r \<Longrightarrow> split_ranks field r = [field @ r]"
  by (induction r arbitrary: field) auto

lemma split_ranks_field:
  "CHR ''/'' \<notin> set r \<Longrightarrow> split_ranks field (r @ CHR ''/'' # cs) = (field @ r) # split_ranks [] cs"
  by (induction r arbitrary: field) auto

lemma split_join_ranks:
  "rs \<noteq> [] \<Longrightarrow> \<forall>r \<in> set rs. CHR ''/'' \<notin> set r \<Longrightarrow> split_ranks [] (join_ranks rs) = rs"
proof (induction rs rule: join_ranks.induct)
  case 1
  then show ?case by simp
next
  case (2 r)
  then show ?case by (simp add: split_ranks_last)
next
  case (3 r r' rs)
  then show ?case by (simp add: split_ranks_field)
qed

lemma space_not_in_join:
  "\<forall>r \<in> set rs. CHR '' '' \<notin> set r \<Longrightarrow> CHR '' '' \<notin> set (join_ranks rs)"
  by (induction rs rule: join_ranks.induct) simp_all

lemma compressed_letter: "digit_value c = None \<Longrightarrow> compressed (c # cs) = compressed cs"
  by (cases cs) simp_all

lemma compressed_before_letter:
  "digit_value c = None \<Longrightarrow> compressed (empty_run n @ c # cs) = compressed cs"
  by (simp add: empty_run_def compressed_letter)

lemma compressed_rank_fen:
  "\<forall>piece. Some piece \<in> set squares \<longrightarrow> piece_letter piece \<Longrightarrow> compressed (rank_fen n squares)"
proof (induction n squares rule: rank_fen.induct)
  case (1 n)
  then show ?case by (simp add: empty_run_def)
next
  case (2 n squares)
  then show ?case by simp
next
  case (3 n piece squares)
  then show ?case by (simp add: compressed_before_letter piece_letter_def)
qed

lemma compressed_append_separator:
  "compressed r \<Longrightarrow> compressed cs \<Longrightarrow> compressed (r @ CHR ''/'' # cs)"
  by (induction r rule: compressed.induct) (simp_all add: compressed_letter digit_value_def)

lemma compressed_join:
  "\<forall>r \<in> set rs. compressed r \<Longrightarrow> compressed (join_ranks rs)"
  by (induction rs rule: join_ranks.induct) (simp_all add: compressed_append_separator)

lemma rank_squares_length: "length board = 64 \<Longrightarrow> r < 8 \<Longrightarrow> length (rank_squares board r) = 8"
  by (simp add: rank_squares_def)

lemma rank_squares_subset: "set (rank_squares board r) \<subseteq> set board"
  unfolding rank_squares_def by (meson set_take_subset set_drop_subset subset_trans)

lemma rank_squares_nth:
  assumes "length board = 64" and "i < 64"
  shows "rank_squares board (i div 8) ! (i mod 8) = board ! i"
proof -
  have "8 * (i div 8) + i mod 8 = i" by simp
  moreover have "8 * (i div 8) + i mod 8 < length board" using assms by simp
  ultimately show ?thesis
    by (simp add: rank_squares_def del: mult_div_mod_eq)
qed

text \<open>
  C7. For every board of 64 squares whose pieces are written as letters, the string of
  \<open>board_fen\<close> read as FEN piece placement gives back, field by field, the squares of
  rank 8, rank 7, down to rank 1, each rank from the a-file to the h-file; square \<open>i\<close>
  of the board is file \<open>i mod 8\<close> of rank \<open>i div 8\<close>, so the string holds the whole
  occupancy and nothing but it. In the string no two digits are adjacent (each run of
  empty squares is one digit), and it contains no blank, hence no side-to-move or
  castling field after the placement.
\<close>

theorem board_fen_is_occupancy_in_fen_rank_syntax:
  assumes "length board = 64"
    and "\<forall>piece. Some piece \<in> set board \<longrightarrow> piece_letter piece"
  shows "map expand_rank (split_ranks [] (board_fen board)) =
           map (rank_squares board) [7, 6, 5, 4, 3, 2, 1, 0] \<and>
         (\<forall>i < 64. rank_squares board (i div 8) ! (i mod 8) = board ! i) \<and>
         compressed (board_fen board) \<and>
         CHR '' '' \<notin> set (board_fen board)"
proof -
  let ?ranks = "[7, 6, 5, 4, 3, 2, 1, 0] :: nat list"
  let ?fields = "map (\<lambda>r. rank_fen 0 (rank_squares board r)) ?ranks"
  have letters: "\<forall>piece. Some piece \<in> set (rank_squares board r) \<longrightarrow> piece_letter piece" for r
    using assms(2) rank_squares_subset[of board r] by blast
  have len: "0 + length (rank_squares board r) \<le> 8" for r
    by (simp add: rank_squares_def)
  have clean: "CHR ''/'' \<notin> set (rank_fen 0 (rank_squares board r)) \<and>
               CHR '' '' \<notin> set (rank_fen 0 (rank_squares board r))" for r
    by (rule rank_fen_no_separator[OF len letters])
  have "split_ranks [] (board_fen board) = ?fields"
    unfolding board_fen_def by (rule split_join_ranks) (use clean in auto)
  moreover have "map expand_rank ?fields = map (rank_squares board) ?ranks"
    using expand_rank_fen[OF len letters] by simp
  ultimately have round_trip: "map expand_rank (split_ranks [] (board_fen board)) =
      map (rank_squares board) ?ranks"
    by simp
  have layout: "\<forall>i < 64. rank_squares board (i div 8) ! (i mod 8) = board ! i"
    using rank_squares_nth[OF assms(1)] by blast
  have runs: "compressed (board_fen board)"
    unfolding board_fen_def by (rule compressed_join) (use compressed_rank_fen[OF letters] in auto)
  have no_space: "CHR '' '' \<notin> set (board_fen board)"
    unfolding board_fen_def by (rule space_not_in_join) (use clean in auto)
  from round_trip layout runs no_space show ?thesis by blast
qed

theorem board_fen_is_occupancy_in_fen_rank_syntax_witness:
  "board_fen after_e4 = ''rnbqkbnr/pppppppp/8/8/4P3/8/PPPP1PPP/RNBQKBNR'' \<and>
   map expand_rank (split_ranks [] ''rnbqkbnr/pppppppp/8/8/4P3/8/PPPP1PPP/RNBQKBNR'') =
     map (rank_squares after_e4) [7, 6, 5, 4, 3, 2, 1, 0]"
proof -
  have 1: "length after_e4 = 64"
    by (simp add: after_e4_def)
  have 2: "\<forall>piece. Some piece \<in> set after_e4 \<longrightarrow> piece_letter piece"
    by (auto simp: after_e4_def piece_letter_def digit_value_def)
  have 3: "board_fen after_e4 = ''rnbqkbnr/pppppppp/8/8/4P3/8/PPPP1PPP/RNBQKBNR''"
    by code_simp
  have 4: "map expand_rank (split_ranks [] (board_fen after_e4)) =
      map (rank_squares after_e4) [7, 6, 5, 4, 3, 2, 1, 0]"
    using board_fen_is_occupancy_in_fen_rank_syntax[OF 1 2] by (rule conjunct1)
  show ?thesis
    using 3 4[unfolded 3] by (intro conjI)
qed

end
